theory Spec2Isabelle
  imports Complex_Main
begin

section \<open>The identity-verification backend (app.py)\<close>

text \<open>
  The service keeps one SQLite table \<open>users\<close> and answers four POST requests:
  register-user, verify-password, verify-face and check-user. Each handler is a pure
  function here: it takes the table, returns the response and the table after the
  request. Python strings and byte strings are \<open>string\<close>; the only character the
  code inspects is the ASCII comma. The float64 numbers of the face encodings are
  modelled as real numbers (no rounding).
\<close>

subsection \<open>Outcomes of calls that may raise\<close>

text \<open>A call into Python code either raises an exception or returns a value.\<close>

datatype 'a outcome = Raises | Returns 'a

subsection \<open>The users table\<close>

text \<open>
  \<open>CREATE TABLE users (id INTEGER PRIMARY KEY AUTOINCREMENT, user_id TEXT UNIQUE NOT NULL,
  password_hash TEXT NOT NULL, face_encoding TEXT)\<close>. The table is the list of its rows in
  insertion order; no statement of the program deletes a row, so the autoincrement
  \<open>id\<close> of a row is its position in the list and is not stored again. The column
  \<open>face_encoding\<close> is nullable in the schema, hence an option.
\<close>

record user_row =
  user_id :: string
  password_hash :: string
  face_encoding :: "string option"

type_synonym users_table = "user_row list"

text \<open>\<open>SELECT ... FROM users WHERE user_id = ?\<close> followed by \<open>fetchone()\<close>.\<close>

definition select_by_user_id :: "users_table \<Rightarrow> string \<Rightarrow> user_row option" where
  "select_by_user_id tbl uid = find (\<lambda>r. user_id r = uid) tbl"

text \<open>
  \<open>INSERT INTO users (user_id, password_hash, face_encoding) VALUES (?, ?, ?)\<close> and
  \<open>commit\<close>. The \<open>UNIQUE\<close> constraint on \<open>user_id\<close> makes SQLite reject the statement
  (sqlite3.IntegrityError) when a row with that \<open>user_id\<close> is already there.
\<close>

definition insert_user :: "users_table \<Rightarrow> string \<Rightarrow> string \<Rightarrow> string \<Rightarrow> users_table outcome" where
  "insert_user tbl uid ph fj =
     (if list_ex (\<lambda>r. user_id r = uid) tbl then Raises
      else Returns (tbl @ [\<lparr>user_id = uid, password_hash = ph, face_encoding = Some fj\<rparr>]))"

text \<open>
  Before a statement runs, sqlite3 binds its parameter. A string longer than
  SQLite's length limit (1,000,000,000 bytes) cannot be bound: \<open>cur.execute\<close> raises
  \<open>sqlite3.DataError\<close> and nothing is read. (A Python \<open>str\<close> with a lone surrogate
  cannot be bound either; it has no UTF-8 encoding and so no counterpart in
  \<open>string\<close>.) \<open>execute_select\<close> is \<open>cur.execute("SELECT ...", (userId,))\<close> with
  \<open>fetchone()\<close> in the three read-only handlers. The properties of \<open>register_user\<close>
  below are about ids that the table holds and about the table that a request leaves
  behind; its lookup is stated on the rows alone.
\<close>

definition sqlite_limit_length :: nat where
  "sqlite_limit_length = 1000000000"

definition bindable :: "string \<Rightarrow> bool" where
  "bindable s \<longleftrightarrow> length s \<le> sqlite_limit_length"

definition execute_select :: "users_table \<Rightarrow> string \<Rightarrow> user_row option outcome" where
  "execute_select tbl uid =
     (if bindable uid then Returns (select_by_user_id tbl uid) else Raises)"

subsection \<open>The external libraries\<close>

text \<open>
  base64, OpenCV, face_recognition, bcrypt and json are third-party code; the handlers
  are parametrised by them. \<open>'img\<close> is the type of decoded pixel arrays.
  \<open>imdecode\<close> returns \<open>None\<close> for bytes it cannot decode. \<open>hashpw\<close> takes the
  password and the salt that \<open>bcrypt.gensalt()\<close> drew. \<open>json_dumps\<close> serialises the
  list of floats of an encoding (\<open>json.dumps(face_encoding.tolist())\<close>) and
  \<open>json_loads\<close> is \<open>np.array(json.loads(text))\<close>.
\<close>

record 'img libs =
  b64decode :: "string \<Rightarrow> string outcome"
  imdecode :: "string \<Rightarrow> 'img option outcome"
  cvtColor :: "'img \<Rightarrow> 'img outcome"
  face_encodings :: "'img \<Rightarrow> real list list outcome"
  hashpw :: "string \<Rightarrow> string \<Rightarrow> string outcome"
  checkpw :: "string \<Rightarrow> string \<Rightarrow> bool outcome"
  json_dumps :: "real list \<Rightarrow> string"
  json_loads :: "string \<Rightarrow> real list outcome"

subsection \<open>Utility functions\<close>

text \<open>
  \<open>str.split(sep)\<close> for a one-character separator: the pieces between the separators.
  A character that is not the separator goes in front of the first piece of the rest
  (the rest always has a first piece).
\<close>

fun split_on :: "char \<Rightarrow> string \<Rightarrow> string list" where
  "split_on c [] = [[]]"
| "split_on c (x # xs) =
     (if x = c then [] # split_on c xs
      else (case split_on c xs of
              [] \<Rightarrow> [[x]]
            | piece # pieces \<Rightarrow> (x # piece) # pieces))"

text \<open>\<open>xs[-1]\<close> and \<open>xs[0]\<close>: IndexError on the empty list.\<close>

definition last_item :: "'a list \<Rightarrow> 'a outcome" where
  "last_item xs = (case rev xs of [] \<Rightarrow> Raises | x # _ \<Rightarrow> Returns x)"

definition first_item :: "'a list \<Rightarrow> 'a outcome" where
  "first_item xs = (case xs of [] \<Rightarrow> Raises | x # _ \<Rightarrow> Returns x)"

text \<open>The argument handed to \<open>base64.b64decode\<close>: \<open>base64_image.split(',')[-1]\<close>.\<close>

definition b64_payload :: "string \<Rightarrow> string outcome" where
  "b64_payload base64_image = last_item (split_on CHR '','' base64_image)"

text \<open>
  The spec's \<open>substring after the last comma\<close>: the longest suffix without a comma,
  which is the whole string when it has no comma.
\<close>

definition after_last_comma :: "string \<Rightarrow> string" where
  "after_last_comma s = rev (takeWhile (\<lambda>x. x \<noteq> CHR '','') (rev s))"

text \<open>
  \<open>get_face_encoding_from_base64\<close>: every exception inside the \<open>try\<close> block is caught
  and turned into \<open>None\<close>; \<open>np.frombuffer(image_data, np.uint8)\<close> only views the bytes.
\<close>

definition get_face_encoding_from_base64 :: "'img libs \<Rightarrow> string \<Rightarrow> real list option" where
  "get_face_encoding_from_base64 L base64_image =
     (case b64_payload base64_image of
        Raises \<Rightarrow> None
      | Returns payload \<Rightarrow>
     (case b64decode L payload of
        Raises \<Rightarrow> None
      | Returns image_data \<Rightarrow>
     (case imdecode L image_data of
        Raises \<Rightarrow> None
      | Returns None \<Rightarrow> None
      | Returns (Some img) \<Rightarrow>
     (case cvtColor L img of
        Raises \<Rightarrow> None
      | Returns rgb \<Rightarrow>
     (case face_encodings L rgb of
        Raises \<Rightarrow> None
      | Returns encodings \<Rightarrow>
     (case encodings of [] \<Rightarrow> None | e # _ \<Rightarrow> Some e))))))"

subsection \<open>Responses\<close>

text \<open>
  A handler returns a JSON body (status 200), raises \<open>HTTPException(status_code, detail)\<close>,
  or lets another exception escape, which the framework answers with status 500.
\<close>

datatype failure = HTTPException nat string | Unhandled

datatype body =
    Registered bool string
  | Valid bool
  | Verified bool real
  | Exists bool

type_synonym response = "failure + body"

subsection \<open>Routes\<close>

text \<open>
  The fields of the request models are passed as arguments. \<open>salt\<close> is the value of
  \<open>bcrypt.gensalt()\<close> in this request.
\<close>

definition register_user ::
  "'img libs \<Rightarrow> string \<Rightarrow> users_table \<Rightarrow> string \<Rightarrow> string \<Rightarrow> string \<Rightarrow> response \<times> users_table" where
  "register_user L salt tbl userId password faceImage =
     (case select_by_user_id tbl userId of
        Some _ \<Rightarrow> (Inl (HTTPException 409 ''User already exists''), tbl)
      | None \<Rightarrow>
     (case get_face_encoding_from_base64 L faceImage of
        None \<Rightarrow> (Inl (HTTPException 400 ''Face not detected''), tbl)
      | Some enc \<Rightarrow>
     (case hashpw L password salt of
        Raises \<Rightarrow> (Inl Unhandled, tbl)
      | Returns ph \<Rightarrow>
     (case insert_user tbl userId ph (json_dumps L enc) of
        Raises \<Rightarrow> (Inl Unhandled, tbl)
      | Returns tbl' \<Rightarrow> (Inr (Registered True ''User registered''), tbl')))))"

definition verify_password ::
  "'img libs \<Rightarrow> users_table \<Rightarrow> string \<Rightarrow> string \<Rightarrow> response \<times> users_table" where
  "verify_password L tbl userId password =
     (case execute_select tbl userId of
        Raises \<Rightarrow> (Inl Unhandled, tbl)
      | Returns None \<Rightarrow> (Inl (HTTPException 404 ''User not found''), tbl)
      | Returns (Some row) \<Rightarrow>
     (case checkpw L password (password_hash row) of
        Raises \<Rightarrow> (Inl Unhandled, tbl)
      | Returns is_valid \<Rightarrow> (Inr (Valid is_valid), tbl)))"

definition check_user :: "users_table \<Rightarrow> string \<Rightarrow> response \<times> users_table" where
  "check_user tbl userId =
     (case execute_select tbl userId of
        Raises \<Rightarrow> (Inl Unhandled, tbl)
      | Returns row \<Rightarrow> (Inr (Exists (row \<noteq> None)), tbl))"

subsection \<open>The biometric verifier\<close>

text \<open>
  Modelled from the spec: \<open>face_recognition.face_distance\<close> and
  \<open>face_recognition.compare_faces\<close> are not part of the repository. The spec (4.4) gives
  their contract: the distance is the Euclidean distance between the two feature
  vectors, and a pair matches when its distance is at most the tolerance. The functions
  take a list of known encodings and answer with one entry per known encoding; the
  handler passes one. For vectors of two lengths the spec says nothing; the model
  follows numpy's subtraction, which repeats a one-component vector and raises a
  ValueError for any other two lengths.
\<close>

definition euclidean :: "real list \<Rightarrow> real list \<Rightarrow> real" where
  "euclidean a b = sqrt (sum_list (map (\<lambda>(x, y). (x - y)\<^sup>2) (zip a b)))"

definition broadcastable :: "nat \<Rightarrow> nat \<Rightarrow> bool" where
  "broadcastable n m \<longleftrightarrow> n = m \<or> m = 1 \<or> n = 1"

definition broadcast_sub :: "real list \<Rightarrow> real list \<Rightarrow> real list" where
  "broadcast_sub a b =
     (if length a = length b then map (\<lambda>(x, y). x - y) (zip a b)
      else if length b = 1 then map (\<lambda>x. x - hd b) a
      else map (\<lambda>y. hd a - y) b)"

definition linalg_norm :: "real list \<Rightarrow> real" where
  "linalg_norm v = sqrt (sum_list (map (\<lambda>x. x\<^sup>2) v))"

definition face_distance :: "real list list \<Rightarrow> real list \<Rightarrow> real list outcome" where
  "face_distance known face_to_compare =
     (if list_all (\<lambda>k. length k = length (hd known)) known \<and>
         list_all (\<lambda>k. broadcastable (length k) (length face_to_compare)) known
      then Returns (map (\<lambda>k. linalg_norm (broadcast_sub k face_to_compare)) known)
      else Raises)"

definition compare_faces :: "real list list \<Rightarrow> real list \<Rightarrow> real \<Rightarrow> bool list outcome" where
  "compare_faces known face_to_check tolerance =
     (case face_distance known face_to_check of
        Raises \<Rightarrow> Raises
      | Returns ds \<Rightarrow> Returns (map (\<lambda>d. d \<le> tolerance) ds))"

text \<open>
  \<open>verify_face\<close>. \<open>json.loads(row[0])\<close> raises a TypeError when the column is NULL.
\<close>

definition verify_face ::
  "'img libs \<Rightarrow> users_table \<Rightarrow> string \<Rightarrow> string \<Rightarrow> response \<times> users_table" where
  "verify_face L tbl userId faceImage =
     (case execute_select tbl userId of
        Raises \<Rightarrow> (Inl Unhandled, tbl)
      | Returns None \<Rightarrow> (Inl (HTTPException 404 ''User not found''), tbl)
      | Returns (Some row) \<Rightarrow>
     (case (case face_encoding row of None \<Rightarrow> Raises | Some text \<Rightarrow> json_loads L text) of
        Raises \<Rightarrow> (Inl Unhandled, tbl)
      | Returns stored_encoding \<Rightarrow>
     (case get_face_encoding_from_base64 L faceImage of
        None \<Rightarrow> (Inl (HTTPException 400 ''Face not detected''), tbl)
      | Some incoming_encoding \<Rightarrow>
     (case (case compare_faces [stored_encoding] incoming_encoding 0.5 of
              Raises \<Rightarrow> Raises | Returns ms \<Rightarrow> first_item ms) of
        Raises \<Rightarrow> (Inl Unhandled, tbl)
      | Returns is_match \<Rightarrow>
     (case (case face_distance [stored_encoding] incoming_encoding of
              Raises \<Rightarrow> Raises | Returns ds \<Rightarrow> first_item ds) of
        Raises \<Rightarrow> (Inl Unhandled, tbl)
      | Returns distance \<Rightarrow> (Inr (Verified is_match distance), tbl))))))"

subsection \<open>A small instance of the libraries\<close>

text \<open>
  The theorems below hold for every instance of the libraries. To run the handlers on
  concrete requests, here is a small instance: an image is its own bytes, three
  pictures contain faces, encodings have three components, and the serialisation
  writes one character per component.
\<close>

definition toy_face_encodings :: "string \<Rightarrow> real list list outcome" where
  "toy_face_encodings img =
     Returns (if img = ''alice'' then [[1, 0, 0]]
              else if img = ''bob'' then [[0, 1, 0]]
              else if img = ''both'' then [[1, 0, 0], [0, 1, 0]]
              else [])"

definition toy_dumps :: "real list \<Rightarrow> string" where
  "toy_dumps v = map (\<lambda>x. if x = 0 then CHR ''0'' else if x = 1 then CHR ''1'' else CHR ''?'') v"

definition toy_loads :: "string \<Rightarrow> real list outcome" where
  "toy_loads t =
     (if list_all (\<lambda>c. c = CHR ''0'' \<or> c = CHR ''1'') t
      then Returns (map (\<lambda>c. if c = CHR ''1'' then 1 else 0) t)
      else Raises)"

text \<open>
  Two stand-ins for bcrypt. Both keep the salt (29 characters) in front of the digest
  and recompute the hash to check a password, as bcrypt does. bcrypt reads at most 72
  bytes of a password: releases before 5.0 drop the rest silently, releases from 5.0
  on raise a ValueError for a longer password. The digest is the identity here, which
  no statement relies on.
\<close>

definition truncating_hashpw :: "string \<Rightarrow> string \<Rightarrow> string outcome" where
  "truncating_hashpw pw salt = Returns (take 29 salt @ take 72 pw)"

definition truncating_checkpw :: "string \<Rightarrow> string \<Rightarrow> bool outcome" where
  "truncating_checkpw pw hashed =
     (case truncating_hashpw pw hashed of
        Raises \<Rightarrow> Raises
      | Returns h \<Rightarrow> Returns (h = hashed))"

definition strict_hashpw :: "string \<Rightarrow> string \<Rightarrow> string outcome" where
  "strict_hashpw pw salt = (if length pw > 72 then Raises else Returns (take 29 salt @ pw))"

definition strict_checkpw :: "string \<Rightarrow> string \<Rightarrow> bool outcome" where
  "strict_checkpw pw hashed =
     (case strict_hashpw pw hashed of
        Raises \<Rightarrow> Raises
      | Returns h \<Rightarrow> Returns (h = hashed))"

definition toy_libs :: "string libs" where
  "toy_libs =
     \<lparr>b64decode = (\<lambda>p. if p = ''!'' then Raises else Returns p),
      imdecode = (\<lambda>b. Returns (if b = [] then None else Some b)),
      cvtColor = Returns,
      face_encodings = toy_face_encodings,
      hashpw = truncating_hashpw,
      checkpw = truncating_checkpw,
      json_dumps = toy_dumps,
      json_loads = toy_loads\<rparr>"

definition strict_libs :: "string libs" where
  "strict_libs = toy_libs\<lparr>hashpw := strict_hashpw, checkpw := strict_checkpw\<rparr>"

text \<open>A table with one registered user, and a 72-character password.\<close>

definition alice_row :: user_row where
  "alice_row = \<lparr>user_id = ''alice'', password_hash = replicate 29 CHR ''s'' @ ''p1'',
                face_encoding = Some ''100''\<rparr>"

definition long_password :: string where
  "long_password = replicate 72 CHR ''a''"

text \<open>A user registered with that password, and a user id one byte over the limit.\<close>

definition bob_row :: user_row where
  "bob_row = \<lparr>user_id = ''bob'', password_hash = replicate 29 CHR ''s'' @ long_password,
              face_encoding = Some ''010''\<rparr>"

definition oversized_id :: string where
  "oversized_id = replicate 1000000001 CHR ''a''"

subsection \<open>Overlapping register-user requests\<close>

text \<open>
  The framework runs the handlers of concurrent requests in separate threads, each on
  its own connection. SQLite executes one statement at a time, so a run of several
  register-user requests is an interleaving of their statements. A request is at one
  of three points: it has \<open>Arrived\<close>, it has \<open>Checked\<close> (its SELECT found no row, lines
  92-95), or it is \<open>Answered\<close>. \<open>register_step\<close> takes a request to its next point:
  from \<open>Arrived\<close> it runs the SELECT; from \<open>Checked\<close> it runs the rest of the handler
  (extraction, hashing, INSERT and commit, lines 97-109). \<open>run\<close> follows a schedule,
  the list of the indices of the requests that take the next step. \<open>race_invariant\<close>
  is the invariant of every run: user ids are unique in the table, a request that
  succeeded has its id in the table, and no two requests for one id succeeded.
\<close>

record register_request =
  req_salt :: string
  req_userId :: string
  req_password :: string
  req_faceImage :: string

datatype progress = Arrived | Checked | Answered response

definition register_step ::
  "'img libs \<Rightarrow> register_request \<Rightarrow> progress \<Rightarrow> users_table \<Rightarrow> progress \<times> users_table" where
  "register_step L rq pr tbl =
     (case pr of
        Arrived \<Rightarrow>
          (case select_by_user_id tbl (req_userId rq) of
             Some _ \<Rightarrow> (Answered (Inl (HTTPException 409 ''User already exists'')), tbl)
           | None \<Rightarrow> (Checked, tbl))
      | Checked \<Rightarrow>
          (case get_face_encoding_from_base64 L (req_faceImage rq) of
             None \<Rightarrow> (Answered (Inl (HTTPException 400 ''Face not detected'')), tbl)
           | Some enc \<Rightarrow>
          (case hashpw L (req_password rq) (req_salt rq) of
             Raises \<Rightarrow> (Answered (Inl Unhandled), tbl)
           | Returns ph \<Rightarrow>
          (case insert_user tbl (req_userId rq) ph (json_dumps L enc) of
             Raises \<Rightarrow> (Answered (Inl Unhandled), tbl)
           | Returns tbl' \<Rightarrow> (Answered (Inr (Registered True ''User registered'')), tbl'))))
      | Answered r \<Rightarrow> (Answered r, tbl))"

fun run :: "'img libs \<Rightarrow> register_request list \<Rightarrow> nat list \<Rightarrow>
    progress list \<times> users_table \<Rightarrow> progress list \<times> users_table" where
  "run L rqs [] st = st"
| "run L rqs (i # sched) (prs, tbl) =
     (if i < length rqs \<and> i < length prs
      then (case register_step L (rqs ! i) (prs ! i) tbl of
              (p, tbl') \<Rightarrow> run L rqs sched (prs[i := p], tbl'))
      else run L rqs sched (prs, tbl))"





section \<open>Properties\<close>

subsection \<open>Auxiliary facts\<close>

lemma select_None_iff: "select_by_user_id tbl uid = None \<longleftrightarrow> uid \<notin> user_id ` set tbl"
  by (auto simp: select_by_user_id_def find_None_iff)

lemma select_Some_user_id: "select_by_user_id tbl uid = Some r \<Longrightarrow> user_id r = uid \<and> r \<in> set tbl"
  by (auto simp: select_by_user_id_def find_Some_iff)

lemma insert_user_Returns:
  "insert_user tbl uid ph fj = Returns tbl' \<longleftrightarrow>
     uid \<notin> user_id ` set tbl \<and>
     tbl' = tbl @ [\<lparr>user_id = uid, password_hash = ph, face_encoding = Some fj\<rparr>]"
  by (auto simp: insert_user_def list_ex_iff)

lemma insert_user_Raises: "insert_user tbl uid ph fj = Raises \<longleftrightarrow> uid \<in> user_id ` set tbl"
  by (auto simp: insert_user_def list_ex_iff)

lemma select_append_new:
  "select_by_user_id tbl uid = None \<Longrightarrow>
   select_by_user_id (tbl @ [r]) uid = (if user_id r = uid then Some r else None)"
  by (induction tbl) (auto simp: select_by_user_id_def)

lemma select_append_old:
  "select_by_user_id tbl uid = Some r \<Longrightarrow> select_by_user_id (tbl @ rs) uid = Some r"
  by (induction tbl) (auto simp: select_by_user_id_def)

lemma register_user_failure:
  "register_user L salt tbl uid pw img = (Inl e, tbl') \<Longrightarrow> tbl' = tbl"
  unfolding register_user_def
  by (simp split: option.splits outcome.splits)

lemma register_user_success:
  "register_user L salt tbl uid pw img = (Inr ok, tbl') \<Longrightarrow>
     \<exists>enc ph. ok = Registered True ''User registered'' \<and> uid \<notin> user_id ` set tbl \<and>
        get_face_encoding_from_base64 L img = Some enc \<and> hashpw L pw salt = Returns ph \<and>
        tbl' = tbl @ [\<lparr>user_id = uid, password_hash = ph, face_encoding = Some (json_dumps L enc)\<rparr>]"
  unfolding register_user_def
  by (simp split: option.splits outcome.splits add: select_None_iff insert_user_Returns)

lemma register_user_present:
  "uid \<in> user_id ` set tbl \<Longrightarrow>
   register_user L salt tbl uid pw img = (Inl (HTTPException 409 ''User already exists''), tbl)"
  unfolding register_user_def
  by (simp split: option.splits add: select_None_iff)

lemma toy_extract_alice: "get_face_encoding_from_base64 toy_libs ''alice'' = Some [1, 0, 0]"
  by (simp add: get_face_encoding_from_base64_def b64_payload_def last_item_def toy_libs_def
      toy_face_encodings_def)

lemma toy_hash_p1: "hashpw toy_libs ''p1'' (replicate 29 CHR ''s'') = Returns (replicate 29 CHR ''s'' @ ''p1'')"
  by (simp add: toy_libs_def truncating_hashpw_def)

lemma toy_dumps_alice: "json_dumps toy_libs [1, 0, 0] = ''100''"
  by (simp add: toy_libs_def toy_dumps_def)

lemma toy_register_alice:
  "register_user toy_libs (replicate 29 CHR ''s'') [] ''alice'' ''p1'' ''alice'' =
     (Inr (Registered True ''User registered''), [alice_row])"
  by (simp add: register_user_def select_by_user_id_def toy_extract_alice toy_hash_p1 toy_dumps_alice
      insert_user_def alice_row_def)

lemma toy_extract_bob:
  "get_face_encoding_from_base64 toy_libs ''data:image/png;base64,bob'' = Some [0, 1, 0]"
  by (simp add: get_face_encoding_from_base64_def b64_payload_def last_item_def toy_libs_def
      toy_face_encodings_def)

lemma toy_extract_noface: "get_face_encoding_from_base64 toy_libs ''tree'' = None"
  by (simp add: get_face_encoding_from_base64_def b64_payload_def last_item_def toy_libs_def
      toy_face_encodings_def)

subsection \<open>Registration\<close>

text \<open>
  C1. If the user id is already in the table, register-user answers 409 'User already
  exists' whatever password and face image come with the request, and the table after
  the request is the table before it. In particular this is what a second request
  gets after a first one has registered the id.
\<close>

theorem register_user_existing_conflict:
  "(uid \<in> user_id ` set tbl \<longrightarrow>
      register_user L salt tbl uid pw img =
        (Inl (HTTPException 409 ''User already exists''), tbl)) \<and>
   (register_user L salt1 tbl uid pw1 img1 = (Inr ok, tbl1) \<longrightarrow>
      register_user L salt2 tbl1 uid pw2 img2 =
        (Inl (HTTPException 409 ''User already exists''), tbl1))"
proof (intro conjI impI)
  assume "uid \<in> user_id ` set tbl"
  then show "register_user L salt tbl uid pw img =
      (Inl (HTTPException 409 ''User already exists''), tbl)"
    by (rule register_user_present)
next
  assume first: "register_user L salt1 tbl uid pw1 img1 = (Inr ok, tbl1)"
  from register_user_success [OF first] obtain r where "tbl1 = tbl @ [r]" and "user_id r = uid"
    by fastforce
  then have "uid \<in> user_id ` set tbl1"
    by simp
  then show "register_user L salt2 tbl1 uid pw2 img2 =
      (Inl (HTTPException 409 ''User already exists''), tbl1)"
    by (rule register_user_present)
qed

theorem register_user_existing_conflict_witness:
  "''alice'' \<in> user_id ` set [alice_row] \<and>
   register_user toy_libs ''t'' [alice_row] ''alice'' ''other'' ''bob'' =
     (Inl (HTTPException 409 ''User already exists''), [alice_row]) \<and>
   register_user toy_libs (replicate 29 CHR ''s'') [] ''alice'' ''p1'' ''alice'' =
     (Inr (Registered True ''User registered''), [alice_row]) \<and>
   register_user toy_libs ''u'' [alice_row] ''alice'' ''p2'' ''tree'' =
     (Inl (HTTPException 409 ''User already exists''), [alice_row])"
proof -
  have present: "''alice'' \<in> user_id ` set [alice_row]"
    by (simp add: alice_row_def)
  have first: "register_user toy_libs (replicate 29 CHR ''s'') [] ''alice'' ''p1'' ''alice'' =
     (Inr (Registered True ''User registered''), [alice_row])"
    by (rule toy_register_alice)
  have again: "register_user toy_libs ''t'' [alice_row] ''alice'' ''other'' ''bob'' =
     (Inl (HTTPException 409 ''User already exists''), [alice_row])"
    by (rule register_user_existing_conflict [THEN conjunct1, rule_format, OF present])
  have second: "register_user toy_libs ''u'' [alice_row] ''alice'' ''p2'' ''tree'' =
     (Inl (HTTPException 409 ''User already exists''), [alice_row])"
    by (rule register_user_existing_conflict [THEN conjunct2, rule_format, OF first])
  show ?thesis
    by (rule conjI [OF present conjI [OF again conjI [OF first second]]])
qed

text \<open>
  C2. A register-user request that fails (409, 400, or an exception that escapes the
  handler) leaves the table as it was. A request that succeeds appends exactly one row,
  and that row carries the serialised encoding that the extractor returned for the
  request's image; so if no row of the table lacks a face encoding before the request,
  none does after it.
\<close>

theorem register_user_failure_no_side_effect:
  assumes "register_user L salt tbl uid pw img = (res, tbl')"
  shows "(\<forall>e. res = Inl e \<longrightarrow> tbl' = tbl) \<and>
         (\<forall>b. res = Inr b \<longrightarrow>
            (\<exists>enc ph. get_face_encoding_from_base64 L img = Some enc \<and>
               uid \<notin> user_id ` set tbl \<and>
               tbl' = tbl @ [\<lparr>user_id = uid, password_hash = ph,
                              face_encoding = Some (json_dumps L enc)\<rparr>])) \<and>
         ((\<forall>r \<in> set tbl. face_encoding r \<noteq> None) \<longrightarrow> (\<forall>r \<in> set tbl'. face_encoding r \<noteq> None))"
proof (cases res)
  case (Inl e)
  with assms have "tbl' = tbl"
    by (simp add: register_user_failure)
  with Inl show ?thesis
    by simp
next
  case (Inr b)
  with assms have "register_user L salt tbl uid pw img = (Inr b, tbl')"
    by simp
  from register_user_success [OF this] obtain enc ph
    where "get_face_encoding_from_base64 L img = Some enc" "uid \<notin> user_id ` set tbl"
      "tbl' = tbl @ [\<lparr>user_id = uid, password_hash = ph,
                       face_encoding = Some (json_dumps L enc)\<rparr>]"
    by blast
  with Inr show ?thesis
    by simp
qed

theorem register_user_failure_no_side_effect_witness:
  "fst (register_user toy_libs ''t'' [alice_row] ''carol'' ''pw'' ''tree'') =
     Inl (HTTPException 400 ''Face not detected'') \<and>
   snd (register_user toy_libs ''t'' [alice_row] ''carol'' ''pw'' ''tree'') = [alice_row]"
proof -
  have run: "register_user toy_libs ''t'' [alice_row] ''carol'' ''pw'' ''tree'' =
     (fst (register_user toy_libs ''t'' [alice_row] ''carol'' ''pw'' ''tree''),
      snd (register_user toy_libs ''t'' [alice_row] ''carol'' ''pw'' ''tree''))"
    by simp
  have err: "fst (register_user toy_libs ''t'' [alice_row] ''carol'' ''pw'' ''tree'') =
     Inl (HTTPException 400 ''Face not detected'')"
    by (simp add: register_user_def select_by_user_id_def toy_extract_noface alice_row_def)
  have "snd (register_user toy_libs ''t'' [alice_row] ''carol'' ''pw'' ''tree'') = [alice_row]"
    by (rule register_user_failure_no_side_effect [OF run, THEN conjunct1, rule_format, OF err])
  with err show ?thesis
    by (rule conjI)
qed

subsection \<open>check-user\<close>

lemma bindable_alice: "bindable ''alice''"
  by (simp add: bindable_def sqlite_limit_length_def)

lemma not_bindable_oversized: "\<not> bindable oversized_id"
  unfolding bindable_def sqlite_limit_length_def oversized_id_def length_replicate
  by simp

lemma execute_select_bindable:
  "bindable uid \<Longrightarrow> execute_select tbl uid = Returns (select_by_user_id tbl uid)"
  by (simp add: execute_select_def)

lemma execute_select_unbindable: "\<not> bindable uid \<Longrightarrow> execute_select tbl uid = Raises"
  by (simp add: execute_select_def)

text \<open>
  C8, for the user ids that sqlite3 can bind. check-user never changes the table. For every user id that sqlite3
  can bind it answers with a body \<open>exists\<close>, and the flag is true exactly when the id
  is in the table: false for an id that is not registered, and true right after a
  successful register-user for that id. For a user id that cannot be bound the SELECT
  raises and the request fails.
\<close>

theorem check_user_exists:
  "snd (check_user tbl uid) = tbl \<and>
   (bindable uid \<longrightarrow> check_user tbl uid = (Inr (Exists (uid \<in> user_id ` set tbl)), tbl)) \<and>
   (bindable uid \<and> uid \<notin> user_id ` set tbl \<longrightarrow> fst (check_user tbl uid) = Inr (Exists False)) \<and>
   (bindable uid \<and> register_user L salt tbl uid pw img = (Inr ok, tbl') \<longrightarrow>
      fst (check_user tbl uid) = Inr (Exists False) \<and>
      check_user tbl' uid = (Inr (Exists True), tbl')) \<and>
   (\<not> bindable uid \<longrightarrow> check_user tbl uid = (Inl Unhandled, tbl))"
proof (intro conjI impI)
  show "snd (check_user tbl uid) = tbl"
    by (simp add: check_user_def split: outcome.splits)
next
  assume "bindable uid"
  then show "check_user tbl uid = (Inr (Exists (uid \<in> user_id ` set tbl)), tbl)"
    by (simp add: check_user_def execute_select_bindable select_None_iff)
next
  assume "bindable uid \<and> uid \<notin> user_id ` set tbl"
  then show "fst (check_user tbl uid) = Inr (Exists False)"
    by (simp add: check_user_def execute_select_bindable select_None_iff)
next
  assume "\<not> bindable uid"
  then show "check_user tbl uid = (Inl Unhandled, tbl)"
    by (simp add: check_user_def execute_select_unbindable)
next
  assume reg: "bindable uid \<and> register_user L salt tbl uid pw img = (Inr ok, tbl')"
  then have bind: "bindable uid" and run: "register_user L salt tbl uid pw img = (Inr ok, tbl')"
    by simp_all
  from register_user_success [OF run] obtain r
    where "uid \<notin> user_id ` set tbl" and "tbl' = tbl @ [r]" and "user_id r = uid"
    by fastforce
  with bind show "fst (check_user tbl uid) = Inr (Exists False)"
    and "check_user tbl' uid = (Inr (Exists True), tbl')"
    by (simp_all add: check_user_def execute_select_bindable select_None_iff)
qed

theorem check_user_exists_witness:
  "bindable ''alice'' \<and>
   check_user [] ''alice'' = (Inr (Exists False), []) \<and>
   register_user toy_libs (replicate 29 CHR ''s'') [] ''alice'' ''p1'' ''alice'' =
     (Inr (Registered True ''User registered''), [alice_row]) \<and>
   check_user [alice_row] ''alice'' = (Inr (Exists True), [alice_row])"
proof -
  have first: "register_user toy_libs (replicate 29 CHR ''s'') [] ''alice'' ''p1'' ''alice'' =
     (Inr (Registered True ''User registered''), [alice_row])"
    by (rule toy_register_alice)
  have "check_user [] ''alice'' =
      (Inr (Exists (''alice'' \<in> user_id ` set ([] :: users_table))), [])"
    by (rule check_user_exists [THEN conjunct2, THEN conjunct1, rule_format, OF bindable_alice])
  then have before: "check_user [] ''alice'' = (Inr (Exists False), [])"
    by simp
  have after: "check_user [alice_row] ''alice'' = (Inr (Exists True), [alice_row])"
    by (rule check_user_exists [THEN conjunct2, THEN conjunct2, THEN conjunct2, THEN conjunct1,
          rule_format, OF conjI [OF bindable_alice first], THEN conjunct2])
  show ?thesis
    by (rule conjI [OF bindable_alice conjI [OF before conjI [OF first after]]])
qed

theorem check_user_unbindable_counterexample:
  "check_user [alice_row] oversized_id = (Inl Unhandled, [alice_row])"
  by (simp add: check_user_def execute_select_unbindable not_bindable_oversized)

subsection \<open>The feature extractor\<close>

lemma split_on_not_Nil: "split_on c s \<noteq> []"
  by (induction s) (auto split: list.splits)

lemma split_on_no_sep: "c \<notin> set s \<Longrightarrow> split_on c s = [s]"
  by (induction s) auto

lemma split_on_append_sep: "split_on c (pre @ c # suf) = split_on c pre @ split_on c suf"
proof (induction pre)
  case Nil
  show ?case by simp
next
  case (Cons x xs)
  obtain p ps where "split_on c xs = p # ps"
    using split_on_not_Nil [of c xs] by (cases "split_on c xs") auto
  with Cons show ?case
    by simp
qed

lemma last_item_last: "xs \<noteq> [] \<Longrightarrow> last_item xs = Returns (last xs)"
  by (cases xs rule: rev_cases) (simp_all add: last_item_def)

lemma b64_payload_no_comma: "CHR '','' \<notin> set s \<Longrightarrow> b64_payload s = Returns s"
  by (simp add: b64_payload_def split_on_no_sep last_item_def)

lemma b64_payload_after_comma:
  "CHR '','' \<notin> set suf \<Longrightarrow> b64_payload (pre @ CHR '','' # suf) = Returns suf"
  by (simp add: b64_payload_def split_on_append_sep split_on_no_sep last_item_last
      split_on_not_Nil)

lemma takeWhile_rev_no_sep: "c \<notin> set xs \<Longrightarrow> takeWhile (\<lambda>x. x \<noteq> c) (rev xs) = rev xs"
  by (auto simp: takeWhile_eq_all_conv)

lemma after_last_comma_no_comma: "CHR '','' \<notin> set s \<Longrightarrow> after_last_comma s = s"
  by (simp add: after_last_comma_def takeWhile_rev_no_sep)

lemma after_last_comma_split:
  "CHR '','' \<notin> set suf \<Longrightarrow> after_last_comma (pre @ CHR '','' # suf) = suf"
  by (simp add: after_last_comma_def takeWhile_tail takeWhile_rev_no_sep)

lemma b64_payload_eq: "b64_payload s = Returns (after_last_comma s)"
proof (cases "CHR '','' \<in> set s")
  case False
  then show ?thesis
    by (simp add: b64_payload_no_comma after_last_comma_no_comma)
next
  case True
  then obtain pre suf where "s = pre @ CHR '','' # suf" and "CHR '','' \<notin> set suf"
    by (auto dest: split_list_last)
  then show ?thesis
    by (simp add: b64_payload_after_comma after_last_comma_split)
qed

lemma extract_b64_raises:
  "b64decode L (after_last_comma s) = Raises \<Longrightarrow> get_face_encoding_from_base64 L s = None"
  by (simp add: get_face_encoding_from_base64_def b64_payload_eq)

lemma extract_imdecode_fails:
  "b64decode L (after_last_comma s) = Returns image_data \<Longrightarrow>
   imdecode L image_data = Raises \<or> imdecode L image_data = Returns None \<Longrightarrow>
   get_face_encoding_from_base64 L s = None"
  by (auto simp: get_face_encoding_from_base64_def b64_payload_eq)

lemma extract_faces:
  "b64decode L (after_last_comma s) = Returns image_data \<Longrightarrow>
   imdecode L image_data = Returns (Some img) \<Longrightarrow>
   cvtColor L img = Returns rgb \<Longrightarrow>
   face_encodings L rgb = Returns encodings \<Longrightarrow>
   get_face_encoding_from_base64 L s = (case encodings of [] \<Rightarrow> None | e # _ \<Rightarrow> Some e)"
  by (simp add: get_face_encoding_from_base64_def b64_payload_eq)

text \<open>
  C6. The extractor hands to the base64 decoder exactly the substring after the last
  comma of \<open>faceImage\<close>: the whole string when it has no comma, and \<open>suf\<close> for
  \<open>pre,suf\<close> when \<open>suf\<close> has no comma. It returns \<open>None\<close> when the base64 decoder
  raises, when the image decoder raises or returns \<open>None\<close>, and when no face is
  detected; when faces are detected it returns the encoding of the first one.
\<close>

theorem extractor_payload_and_outcomes:
  "b64_payload s = Returns (after_last_comma s) \<and>
   (CHR '','' \<notin> set s \<longrightarrow> after_last_comma s = s) \<and>
   (CHR '','' \<notin> set suf \<longrightarrow> after_last_comma (pre @ CHR '','' # suf) = suf) \<and>
   (b64decode L (after_last_comma s) = Raises \<longrightarrow> get_face_encoding_from_base64 L s = None) \<and>
   (b64decode L (after_last_comma s) = Returns image_data \<and>
      (imdecode L image_data = Raises \<or> imdecode L image_data = Returns None) \<longrightarrow>
      get_face_encoding_from_base64 L s = None) \<and>
   (b64decode L (after_last_comma s) = Returns image_data \<and>
      imdecode L image_data = Returns (Some img) \<and> cvtColor L img = Returns rgb \<and>
      face_encodings L rgb = Returns [] \<longrightarrow>
      get_face_encoding_from_base64 L s = None) \<and>
   (b64decode L (after_last_comma s) = Returns image_data \<and>
      imdecode L image_data = Returns (Some img) \<and> cvtColor L img = Returns rgb \<and>
      face_encodings L rgb = Returns (first_face # more_faces) \<longrightarrow>
      get_face_encoding_from_base64 L s = Some first_face)"
proof (intro conjI impI)
  show "b64_payload s = Returns (after_last_comma s)"
    by (rule b64_payload_eq)
next
  assume "CHR '','' \<notin> set s"
  then show "after_last_comma s = s"
    by (rule after_last_comma_no_comma)
next
  assume "CHR '','' \<notin> set suf"
  then show "after_last_comma (pre @ CHR '','' # suf) = suf"
    by (rule after_last_comma_split)
next
  assume "b64decode L (after_last_comma s) = Raises"
  then show "get_face_encoding_from_base64 L s = None"
    by (rule extract_b64_raises)
next
  assume "b64decode L (after_last_comma s) = Returns image_data \<and>
      (imdecode L image_data = Raises \<or> imdecode L image_data = Returns None)"
  then show "get_face_encoding_from_base64 L s = None"
    using extract_imdecode_fails by blast
next
  assume "b64decode L (after_last_comma s) = Returns image_data \<and>
      imdecode L image_data = Returns (Some img) \<and> cvtColor L img = Returns rgb \<and>
      face_encodings L rgb = Returns []"
  then show "get_face_encoding_from_base64 L s = None"
    using extract_faces [of L s image_data img rgb "[]"] by simp
next
  assume "b64decode L (after_last_comma s) = Returns image_data \<and>
      imdecode L image_data = Returns (Some img) \<and> cvtColor L img = Returns rgb \<and>
      face_encodings L rgb = Returns (first_face # more_faces)"
  then show "get_face_encoding_from_base64 L s = Some first_face"
    using extract_faces [of L s image_data img rgb "first_face # more_faces"] by simp
qed

lemma toy_payload_both: "after_last_comma ''a,b;c,both'' = ''both''"
  by (simp add: after_last_comma_def)

theorem extractor_payload_and_outcomes_witness:
  "after_last_comma ''a,b;c,both'' = ''both'' \<and>
   get_face_encoding_from_base64 toy_libs ''a,b;c,both'' = Some [1, 0, 0]"
proof -
  have chain: "b64decode toy_libs (after_last_comma ''a,b;c,both'') = Returns ''both'' \<and>
      imdecode toy_libs ''both'' = Returns (Some ''both'') \<and>
      cvtColor toy_libs ''both'' = Returns ''both'' \<and>
      face_encodings toy_libs ''both'' = Returns ([1, 0, 0] # [[0, 1, 0]])"
    by (simp add: toy_payload_both toy_libs_def toy_face_encodings_def)
  have "get_face_encoding_from_base64 toy_libs ''a,b;c,both'' = Some [1, 0, 0]"
    by (rule extractor_payload_and_outcomes [THEN conjunct2, THEN conjunct2, THEN conjunct2,
          THEN conjunct2, THEN conjunct2, THEN conjunct2, rule_format, OF chain])
  with toy_payload_both show ?thesis
    by (rule conjI)
qed


subsection \<open>The biometric verifier (C4, C5)\<close>

lemma sum_squares_sub_self: "sum_list (map (\<lambda>x. x\<^sup>2) (map (\<lambda>(x, y). x - y) (zip v v))) = (0::real)"
  by (induction v) simp_all

lemma squares_of_differences:
  "map (\<lambda>x. x\<^sup>2) (map (\<lambda>(x, y). x - y) zs) = map (\<lambda>(x, y). (x - y)\<^sup>2) (zs :: (real \<times> real) list)"
  by (induction zs) auto

lemma broadcast_sub_equal_length:
  "length a = length b \<Longrightarrow>
   linalg_norm (broadcast_sub a b) = euclidean a b"
proof -
  assume "length a = length b"
  then have "broadcast_sub a b = map (\<lambda>(x, y). x - y) (zip a b)"
    by (simp add: broadcast_sub_def)
  then show ?thesis
    by (simp only: linalg_norm_def euclidean_def squares_of_differences)
qed

lemma euclidean_self: "euclidean v v = 0"
proof -
  have "sum_list (map (\<lambda>(x, y). (x - y)\<^sup>2) (zip v v)) = (0::real)"
    by (induction v) simp_all
  then show ?thesis
    by (simp add: euclidean_def)
qed

lemma euclidean_commute: "euclidean a b = euclidean b a"
proof -
  have "sum_list (map (\<lambda>(x, y). (x - y)\<^sup>2) (zip a b)) =
        sum_list (map (\<lambda>(x, y). (x - y)\<^sup>2) (zip b a))"
  proof (induction a arbitrary: b)
    case Nil
    show ?case by simp
  next
    case (Cons x xs)
    show ?case
    proof (cases b)
      case Nil
      then show ?thesis by simp
    next
      case (Cons y ys)
      with Cons.IH [of ys] show ?thesis
        by (simp add: power2_commute [of x y])
    qed
  qed
  then show ?thesis
    by (simp add: euclidean_def)
qed

lemma face_distance_single_equal_length:
  "length a = length b \<Longrightarrow> face_distance [a] b = Returns [euclidean a b]"
  by (simp add: face_distance_def broadcastable_def broadcast_sub_equal_length)

lemma norm_broadcast_one:
  "length a \<noteq> length b \<Longrightarrow> length b = 1 \<Longrightarrow>
   linalg_norm (broadcast_sub a b) = linalg_norm (broadcast_sub b a)"
proof -
  assume ne: "length a \<noteq> length b" and one: "length b = 1"
  have "sum_list (map (\<lambda>x. x\<^sup>2) (map (\<lambda>x. x - c) a)) =
        sum_list (map (\<lambda>x. x\<^sup>2) (map (\<lambda>y. c - y) a))" for c :: real
    by (induction a) (simp_all add: power2_commute)
  with ne one show ?thesis
    by (simp add: linalg_norm_def broadcast_sub_def)
qed

lemma norm_broadcast_symmetric:
  "broadcastable (length a) (length b) \<Longrightarrow>
   linalg_norm (broadcast_sub a b) = linalg_norm (broadcast_sub b a)"
proof (cases "length a = length b")
  case True
  then show ?thesis
    using euclidean_commute [of a b] by (simp add: broadcast_sub_equal_length)
next
  case False
  assume "broadcastable (length a) (length b)"
  with False consider "length b = 1" | "length a = 1"
    by (auto simp: broadcastable_def)
  then show ?thesis
  proof cases
    case 1
    with False show ?thesis
      by (rule norm_broadcast_one)
  next
    case 2
    with False have "linalg_norm (broadcast_sub b a) = linalg_norm (broadcast_sub a b)"
      by (intro norm_broadcast_one) simp_all
    then show ?thesis
      by simp
  qed
qed

lemma broadcastable_commute: "broadcastable n m = broadcastable m n"
  by (auto simp: broadcastable_def)

text \<open>
  C4. For every feature vector \<open>v\<close> the verifier run on the pair \<open>(v, v)\<close>, as the
  handler calls it (one known encoding, tolerance 0.5), yields the distance 0 and a
  match.
\<close>

theorem verify_identical_vector:
  "face_distance [v] v = Returns [0] \<and> compare_faces [v] v 0.5 = Returns [True]"
  by (simp add: compare_faces_def face_distance_single_equal_length euclidean_self)

theorem verify_identical_vector_witness:
  "face_distance [[1, 0, 0]] [1, 0, 0] = Returns [0] \<and>
   compare_faces [[1, 0, 0]] [1, 0, 0] 0.5 = Returns [True]"
  by (rule verify_identical_vector)

text \<open>
  C5. The distance is symmetric: for all vectors \<open>a\<close> and \<open>b\<close>, verifying \<open>a\<close> against
  \<open>b\<close> gives the same outcome, and so the same distance, as verifying \<open>b\<close> against
  \<open>a\<close>.
\<close>

theorem face_distance_symmetric: "face_distance [a] b = face_distance [b] a"
proof (cases "broadcastable (length a) (length b)")
  case True
  then have "broadcastable (length b) (length a)"
    by (simp add: broadcastable_commute)
  with True show ?thesis
    by (simp add: face_distance_def norm_broadcast_symmetric)
next
  case False
  then have "\<not> broadcastable (length b) (length a)"
    by (simp add: broadcastable_commute)
  with False show ?thesis
    by (simp add: face_distance_def)
qed

theorem face_distance_symmetric_witness:
  "face_distance [[1, 0, 0]] [0, 1, 0] = face_distance [[0, 1, 0]] [1, 0, 0]"
  by (rule face_distance_symmetric)

subsection \<open>verify-face\<close>

lemma face_distance_single:
  "face_distance [s] c =
     (if broadcastable (length s) (length c) then Returns [linalg_norm (broadcast_sub s c)]
      else Raises)"
  by (simp add: face_distance_def)

lemma compare_faces_single:
  "compare_faces [s] c t =
     (if broadcastable (length s) (length c) then Returns [linalg_norm (broadcast_sub s c) \<le> t]
      else Raises)"
  by (simp add: compare_faces_def face_distance_single)

lemma verify_face_Verified:
  "verify_face L tbl uid img = (Inr (Verified m d), tbl') \<Longrightarrow> (m \<longleftrightarrow> d \<le> 0.5) \<and> tbl' = tbl"
  unfolding verify_face_def face_distance_single compare_faces_single
  by (auto simp: first_item_def split: outcome.splits option.splits if_splits)

lemma verify_face_registered:
  "execute_select tbl uid = Returns (Some row) \<Longrightarrow> face_encoding row = Some stored_json \<Longrightarrow>
   json_loads L stored_json = Returns stored \<Longrightarrow>
   get_face_encoding_from_base64 L img = Some candidate \<Longrightarrow>
   length stored = length candidate \<Longrightarrow>
   verify_face L tbl uid img =
     (Inr (Verified (euclidean stored candidate \<le> 0.5) (euclidean stored candidate)), tbl)"
  unfolding verify_face_def
  by (simp add: face_distance_single_equal_length compare_faces_def first_item_def)

text \<open>
  C3. Whenever verify-face answers with a body, its \<open>verified\<close> field is true exactly
  when its \<open>distance\<close> field is at most 0.5, and the table is unchanged. For a
  registered user (the lookup finds a row whose stored text parses to the vector
  \<open>stored\<close>) and an image from which the extractor returns \<open>candidate\<close>, of the
  dimension of \<open>stored\<close>, the \<open>distance\<close> field is the Euclidean distance between
  \<open>stored\<close> and \<open>candidate\<close>.
\<close>

theorem verify_face_distance_threshold:
  "(verify_face L tbl uid img = (Inr (Verified is_match distance), tbl') \<longrightarrow>
      (is_match \<longleftrightarrow> distance \<le> 0.5) \<and> tbl' = tbl) \<and>
   (execute_select tbl uid = Returns (Some row) \<and> face_encoding row = Some stored_json \<and>
      json_loads L stored_json = Returns stored \<and>
      get_face_encoding_from_base64 L img = Some candidate \<and>
      length stored = length candidate \<longrightarrow>
      verify_face L tbl uid img =
        (Inr (Verified (euclidean stored candidate \<le> 0.5) (euclidean stored candidate)), tbl))"
proof (rule conjI)
  show "verify_face L tbl uid img = (Inr (Verified is_match distance), tbl') \<longrightarrow>
      (is_match \<longleftrightarrow> distance \<le> 0.5) \<and> tbl' = tbl"
    using verify_face_Verified [of L tbl uid img is_match distance tbl'] by (rule impI)
next
  show "execute_select tbl uid = Returns (Some row) \<and> face_encoding row = Some stored_json \<and>
      json_loads L stored_json = Returns stored \<and>
      get_face_encoding_from_base64 L img = Some candidate \<and>
      length stored = length candidate \<longrightarrow>
      verify_face L tbl uid img =
        (Inr (Verified (euclidean stored candidate \<le> 0.5) (euclidean stored candidate)), tbl)"
    using verify_face_registered [of tbl uid row stored_json L stored img candidate] by blast
qed

lemma select_alice: "execute_select [alice_row] ''alice'' = Returns (Some alice_row)"
  by (simp add: execute_select_bindable bindable_alice select_by_user_id_def alice_row_def)

theorem verify_face_distance_threshold_witness:
  "verify_face toy_libs [alice_row] ''alice'' ''alice'' = (Inr (Verified True 0), [alice_row])"
proof -
  have pre: "execute_select [alice_row] ''alice'' = Returns (Some alice_row) \<and>
      face_encoding alice_row = Some ''100'' \<and>
      json_loads toy_libs ''100'' = Returns [1, 0, 0] \<and>
      get_face_encoding_from_base64 toy_libs ''alice'' = Some [1, 0, 0] \<and>
      length [1, 0, 0 :: real] = length [1, 0, 0 :: real]"
    by (simp add: select_alice toy_extract_alice) (simp add: alice_row_def toy_libs_def toy_loads_def)
  have "verify_face toy_libs [alice_row] ''alice'' ''alice'' =
      (Inr (Verified (euclidean [1, 0, 0] [1, 0, 0] \<le> 0.5) (euclidean [1, 0, 0] [1, 0, 0])),
       [alice_row])"
    by (rule verify_face_distance_threshold [THEN conjunct2, rule_format, OF pre])
  then show ?thesis
    by (simp add: euclidean_self)
qed

subsection \<open>verify-password\<close>

lemma verify_password_table: "snd (verify_password L tbl uid pw) = tbl"
  by (simp add: verify_password_def split: outcome.splits option.splits)

lemma verify_password_unknown:
  "bindable uid \<Longrightarrow> uid \<notin> user_id ` set tbl \<Longrightarrow>
   verify_password L tbl uid pw = (Inl (HTTPException 404 ''User not found''), tbl)"
  using select_None_iff [of tbl uid]
  by (simp add: verify_password_def execute_select_bindable)

lemma verify_password_after_register:
  assumes "bindable uid" and "register_user L salt tbl uid pw img = (Inr ok, tbl')"
  shows "\<exists>h. hashpw L pw salt = Returns h \<and>
           verify_password L tbl' uid other =
             (case checkpw L other h of
                Raises \<Rightarrow> (Inl Unhandled, tbl')
              | Returns v \<Rightarrow> (Inr (Valid v), tbl'))"
proof -
  from register_user_success [OF assms(2)] obtain enc h
    where absent: "uid \<notin> user_id ` set tbl" and hash: "hashpw L pw salt = Returns h"
      and tbl': "tbl' = tbl @ [\<lparr>user_id = uid, password_hash = h,
                                 face_encoding = Some (json_dumps L enc)\<rparr>]"
    by blast
  from absent have "select_by_user_id tbl uid = None"
    by (simp add: select_None_iff)
  then have "select_by_user_id tbl' uid =
      Some \<lparr>user_id = uid, password_hash = h, face_encoding = Some (json_dumps L enc)\<rparr>"
    unfolding tbl' by (simp add: select_append_new)
  with assms(1) have "verify_password L tbl' uid other =
             (case checkpw L other h of
                Raises \<Rightarrow> (Inl Unhandled, tbl')
              | Returns v \<Rightarrow> (Inr (Valid v), tbl'))"
    by (simp add: verify_password_def execute_select_bindable)
  with hash show ?thesis
    by blast
qed

text \<open>
  C7, with bcrypt as a parameter. verify-password never changes the table. For a user id that sqlite3
  can bind and that is not in the table it answers 404 'User not found'. After a
  successful register-user of a bindable id with the password \<open>pw\<close>, verify-password
  for that id answers with the verdict of \<open>checkpw\<close> on the submitted password and the
  hash stored at registration, and fails when \<open>checkpw\<close> raises; with \<open>pw\<close> itself
  the answer is \<open>valid: true\<close>, provided \<open>checkpw\<close> accepts a password against the
  hash that \<open>hashpw\<close> made of it.
\<close>

theorem verify_password_round_trip:
  "snd (verify_password L tbl uid pw) = tbl \<and>
   (bindable uid \<and> uid \<notin> user_id ` set tbl \<longrightarrow>
      verify_password L tbl uid pw = (Inl (HTTPException 404 ''User not found''), tbl)) \<and>
   (bindable uid \<and> register_user L salt tbl uid pw img = (Inr ok, tbl') \<and>
      (\<forall>h. hashpw L pw salt = Returns h \<longrightarrow> checkpw L pw h = Returns True) \<longrightarrow>
      verify_password L tbl' uid pw = (Inr (Valid True), tbl')) \<and>
   (bindable uid \<and> register_user L salt tbl uid pw img = (Inr ok, tbl') \<longrightarrow>
      (\<exists>h. hashpw L pw salt = Returns h \<and>
           verify_password L tbl' uid other =
             (case checkpw L other h of
                Raises \<Rightarrow> (Inl Unhandled, tbl')
              | Returns v \<Rightarrow> (Inr (Valid v), tbl'))))"
proof (intro conjI)
  show "snd (verify_password L tbl uid pw) = tbl"
    by (rule verify_password_table)
next
  show "bindable uid \<and> uid \<notin> user_id ` set tbl \<longrightarrow>
      verify_password L tbl uid pw = (Inl (HTTPException 404 ''User not found''), tbl)"
    by (simp add: verify_password_unknown)
next
  show "bindable uid \<and> register_user L salt tbl uid pw img = (Inr ok, tbl') \<and>
      (\<forall>h. hashpw L pw salt = Returns h \<longrightarrow> checkpw L pw h = Returns True) \<longrightarrow>
      verify_password L tbl' uid pw = (Inr (Valid True), tbl')"
  proof
    assume a: "bindable uid \<and> register_user L salt tbl uid pw img = (Inr ok, tbl') \<and>
      (\<forall>h. hashpw L pw salt = Returns h \<longrightarrow> checkpw L pw h = Returns True)"
    then obtain h where "hashpw L pw salt = Returns h"
      and v: "verify_password L tbl' uid pw =
             (case checkpw L pw h of
                Raises \<Rightarrow> (Inl Unhandled, tbl')
              | Returns v \<Rightarrow> (Inr (Valid v), tbl'))"
      using verify_password_after_register [of uid L salt tbl pw img ok tbl' pw] by blast
    with a have "checkpw L pw h = Returns True"
      by blast
    with v show "verify_password L tbl' uid pw = (Inr (Valid True), tbl')"
      by simp
  qed
next
  show "bindable uid \<and> register_user L salt tbl uid pw img = (Inr ok, tbl') \<longrightarrow>
      (\<exists>h. hashpw L pw salt = Returns h \<and>
           verify_password L tbl' uid other =
             (case checkpw L other h of
                Raises \<Rightarrow> (Inl Unhandled, tbl')
              | Returns v \<Rightarrow> (Inr (Valid v), tbl')))"
    using verify_password_after_register [of uid L salt tbl pw img ok tbl' other] by blast
qed

lemma toy_round_trip_contract:
  "\<forall>h. hashpw toy_libs ''p1'' (replicate 29 CHR ''s'') = Returns h \<longrightarrow>
       checkpw toy_libs ''p1'' h = Returns True"
  by (simp add: toy_libs_def truncating_hashpw_def truncating_checkpw_def)

theorem verify_password_round_trip_witness:
  "verify_password toy_libs [alice_row] ''alice'' ''p1'' = (Inr (Valid True), [alice_row])"
proof -
  have pre: "bindable ''alice'' \<and>
      register_user toy_libs (replicate 29 CHR ''s'') [] ''alice'' ''p1'' ''alice'' =
        (Inr (Registered True ''User registered''), [alice_row]) \<and>
      (\<forall>h. hashpw toy_libs ''p1'' (replicate 29 CHR ''s'') = Returns h \<longrightarrow>
           checkpw toy_libs ''p1'' h = Returns True)"
    using bindable_alice toy_register_alice toy_round_trip_contract by (intro conjI)
  show ?thesis
    by (rule verify_password_round_trip [THEN conjunct2, THEN conjunct2, THEN conjunct1,
          rule_format, OF pre])
qed

lemma bindable_bob: "bindable ''bob''"
  by (simp add: bindable_def sqlite_limit_length_def)

lemma select_bob: "execute_select [bob_row] ''bob'' = Returns (Some bob_row)"
  by (simp add: execute_select_bindable bindable_bob select_by_user_id_def bob_row_def)

lemma toy_register_bob:
  "register_user toy_libs (replicate 29 CHR ''s'') [] ''bob'' long_password ''bob'' =
     (Inr (Registered True ''User registered''), [bob_row])"
proof -
  have "get_face_encoding_from_base64 toy_libs ''bob'' = Some [0, 1, 0]"
    by (simp add: get_face_encoding_from_base64_def b64_payload_def last_item_def toy_libs_def
        toy_face_encodings_def)
  moreover have "hashpw toy_libs long_password (replicate 29 CHR ''s'') =
      Returns (replicate 29 CHR ''s'' @ long_password)"
    by (simp add: toy_libs_def truncating_hashpw_def long_password_def)
  moreover have "json_dumps toy_libs [0, 1, 0] = ''010''"
    by (simp add: toy_libs_def toy_dumps_def)
  ultimately show ?thesis
    by (simp add: register_user_def select_by_user_id_def insert_user_def bob_row_def)
qed

theorem verify_password_counterexample:
  "verify_password toy_libs [bob_row] oversized_id long_password =
     (Inl Unhandled, [bob_row]) \<and>
   register_user toy_libs (replicate 29 CHR ''s'') [] ''bob'' long_password ''bob'' =
     (Inr (Registered True ''User registered''), [bob_row]) \<and>
   long_password @ ''x'' \<noteq> long_password \<and>
   verify_password toy_libs [bob_row] ''bob'' (long_password @ ''x'') =
     (Inr (Valid True), [bob_row]) \<and>
   verify_password strict_libs [bob_row] ''bob'' (long_password @ ''x'') =
     (Inl Unhandled, [bob_row])"
proof (intro conjI)
  show "verify_password toy_libs [bob_row] oversized_id long_password =
     (Inl Unhandled, [bob_row])"
    by (simp add: verify_password_def execute_select_unbindable not_bindable_oversized)
next
  show "register_user toy_libs (replicate 29 CHR ''s'') [] ''bob'' long_password ''bob'' =
     (Inr (Registered True ''User registered''), [bob_row])"
    by (rule toy_register_bob)
next
  show "long_password @ ''x'' \<noteq> long_password"
    by simp
next
  have "checkpw toy_libs (long_password @ ''x'') (password_hash bob_row) = Returns True"
    by (simp add: toy_libs_def truncating_checkpw_def truncating_hashpw_def bob_row_def
        long_password_def)
  then show "verify_password toy_libs [bob_row] ''bob'' (long_password @ ''x'') =
     (Inr (Valid True), [bob_row])"
    by (simp add: verify_password_def select_bob)
next
  have "checkpw strict_libs (long_password @ ''x'') (password_hash bob_row) = Raises"
    by (simp add: strict_libs_def toy_libs_def strict_checkpw_def strict_hashpw_def
        long_password_def)
  then show "verify_password strict_libs [bob_row] ''bob'' (long_password @ ''x'') =
     (Inl Unhandled, [bob_row])"
    by (simp add: verify_password_def select_bob)
qed

subsection \<open>Overlapping register-user requests (C9)\<close>

text \<open>Two steps of one request, taken one after the other, are the handler.\<close>

lemma register_step_sequential:
  "register_step L rq Arrived tbl = (p, tbl1) \<Longrightarrow> register_step L rq p tbl1 = (q, tbl2) \<Longrightarrow>
   (\<exists>r. q = Answered r \<and>
      register_user L (req_salt rq) tbl (req_userId rq) (req_password rq) (req_faceImage rq) =
        (r, tbl2))"
  unfolding register_step_def register_user_def
  by (auto split: option.splits outcome.splits)









end
